theory Spec2Isabelle
  imports Complex_Main "HOL-Library.Word"
begin

unbundle bit_operations_syntax

section \<open>Containers and undefined behaviour\<close>

text \<open>
  A \<^verbatim>\<open>std::unordered_map\<close> is an association list with one pair per key. The order
  of the pairs is the order in which a range-for visits them; C++ leaves it unspecified, and
  no result below depends on it beyond what is stated.
\<close>

type_synonym ('k, 'v) unordered_map = "('k \<times> 'v) list"

text \<open>
  \<^verbatim>\<open>m[k] = f(m[k])\<close>: \<^verbatim>\<open>operator[]\<close> inserts the value-initialised \<open>d\<close> when the key
  is new.
\<close>

fun modify_at :: "'k \<Rightarrow> 'v \<Rightarrow> ('v \<Rightarrow> 'v) \<Rightarrow> ('k, 'v) unordered_map \<Rightarrow> ('k, 'v) unordered_map" where
  "modify_at k d f [] = [(k, f d)]"
| "modify_at k d f ((k', v) # m) =
     (if k' = k then (k', f v) # m else (k', v) # modify_at k d f m)"

text \<open>\<^verbatim>\<open>m[k] += v\<close> for a map of counters.\<close>

definition add_at :: "'k \<Rightarrow> 'v::{zero,plus} \<Rightarrow> ('k, 'v) unordered_map \<Rightarrow> ('k, 'v) unordered_map" where
  "add_at k v m = modify_at k 0 (\<lambda>c. c + v) m"

text \<open>
  What the C++ standard leaves undefined is a value of the model, so that a path reaching it
  is visible: nothing is promised about the program after it.
\<close>

datatype undefined_behaviour =
    Dereference_Of_End_Iterator
  | Index_Out_Of_Range
  | Signed_Overflow
  | Null_Pointer_Dereference

section \<open>Floating point\<close>

text \<open>
  A \<^verbatim>\<open>double\<close> is a real number or one of the special values of IEEE 754 arithmetic.
  An operation on numbers gives the exact real result: its rounding to 53 bits is not
  modelled, nor is the accuracy of \<^verbatim>\<open>std::log2\<close>, which the C library decides, and no
  number below is large enough for a double to overflow. The conversion of an unsigned
  integer gives its value. The zero is the positive zero: every divisor below is converted
  from an unsigned integer.
\<close>

datatype double = Finite real | Plus_Infinity | Minus_Infinity | NaN

fun double_neg :: "double \<Rightarrow> double" where
  "double_neg (Finite x) = Finite (- x)"
| "double_neg Plus_Infinity = Minus_Infinity"
| "double_neg Minus_Infinity = Plus_Infinity"
| "double_neg NaN = NaN"

fun double_add :: "double \<Rightarrow> double \<Rightarrow> double" where
  "double_add (Finite x) (Finite y) = Finite (x + y)"
| "double_add NaN b = NaN"
| "double_add a NaN = NaN"
| "double_add Plus_Infinity Minus_Infinity = NaN"
| "double_add Minus_Infinity Plus_Infinity = NaN"
| "double_add Plus_Infinity b = Plus_Infinity"
| "double_add a Plus_Infinity = Plus_Infinity"
| "double_add Minus_Infinity b = Minus_Infinity"
| "double_add a Minus_Infinity = Minus_Infinity"

definition double_sub :: "double \<Rightarrow> double \<Rightarrow> double" where
  "double_sub a b = double_add a (double_neg b)"

text \<open>The sign of a double that is neither a zero nor NaN: true for a positive one.\<close>

fun double_positive :: "double \<Rightarrow> bool" where
  "double_positive (Finite x) = (0 < x)"
| "double_positive Plus_Infinity = True"
| "double_positive Minus_Infinity = False"
| "double_positive NaN = False"

definition double_mul :: "double \<Rightarrow> double \<Rightarrow> double" where
  "double_mul a b =
     (case (a, b) of
        (Finite x, Finite y) \<Rightarrow> Finite (x * y)
      | _ \<Rightarrow> if a = NaN \<or> b = NaN \<or> a = Finite 0 \<or> b = Finite 0 then NaN
             else if double_positive a = double_positive b then Plus_Infinity
             else Minus_Infinity)"

fun double_div :: "double \<Rightarrow> double \<Rightarrow> double" where
  "double_div (Finite x) (Finite y) =
     (if y \<noteq> 0 then Finite (x / y)
      else if x = 0 then NaN else if 0 < x then Plus_Infinity else Minus_Infinity)"
| "double_div NaN b = NaN"
| "double_div a NaN = NaN"
| "double_div (Finite x) b = Finite 0"
| "double_div a (Finite y) = (if double_positive a = (0 \<le> y) then Plus_Infinity else Minus_Infinity)"
| "double_div a b = NaN"

fun double_log2 :: "double \<Rightarrow> double" where
  "double_log2 (Finite x) =
     (if x = 0 then Minus_Infinity else if x < 0 then NaN else Finite (log 2 x))"
| "double_log2 Plus_Infinity = Plus_Infinity"
| "double_log2 Minus_Infinity = NaN"
| "double_log2 NaN = NaN"

text \<open>
  The narrowing \<^verbatim>\<open>(float)\<close> rounds a number to the nearest one with a significand of
  24 bits, the even one of two equally near, in steps of \<open>2^-149\<close> below \<open>2^-126\<close>; a
  result of magnitude \<open>2^128\<close> or more is an infinity. A \<^verbatim>\<open>float\<close> converts back to
  \<^verbatim>\<open>double\<close> unchanged.
\<close>

definition round_to_even :: "real \<Rightarrow> int" where
  "round_to_even y =
     (if y - of_int \<lfloor>y\<rfloor> < 1 / 2 then \<lfloor>y\<rfloor>
      else if 1 / 2 < y - of_int \<lfloor>y\<rfloor> then \<lfloor>y\<rfloor> + 1
      else if even \<lfloor>y\<rfloor> then \<lfloor>y\<rfloor> else \<lfloor>y\<rfloor> + 1)"

definition float_exponent :: "real \<Rightarrow> int" where
  "float_exponent x = max \<lfloor>log 2 \<bar>x\<bar>\<rfloor> (- 126)"

definition float_ulp :: "real \<Rightarrow> real" where
  "float_ulp x = 2 powr of_int (float_exponent x - 23)"

definition round_float :: "real \<Rightarrow> real" where
  "round_float x = (if x = 0 then 0 else of_int (round_to_even (x / float_ulp x)) * float_ulp x)"

fun to_float :: "double \<Rightarrow> double" where
  "to_float (Finite x) =
     (if 2 ^ 128 \<le> \<bar>round_float x\<bar>
      then (if 0 < x then Plus_Infinity else Minus_Infinity)
      else Finite (round_float x))"
| "to_float a = a"

section \<open>The plugin's members\<close>

text \<open>
  Modelled from the spec: the interpreter's types (core/common.h, core/KernelInvocation.h)
  are not among the sources. A \<open>Size3\<close> has the three components the source reads; of a
  kernel invocation the model keeps what the source asks it for; instructions and basic
  blocks are opaque handles.
\<close>

datatype Size3 = Size3 (size_x: nat) (size_y: nat) (size_z: nat)

record KernelInvocation =
  getName :: string
  getNumGroups :: Size3
  getLocalSize :: Size3
  workGroupSizeSpecified :: bool

type_synonym instruction = nat
type_synonym basic_block = nat

text \<open>
  Modelled from the spec: the declaration of the class (WorkloadCharacterisation.h) is not
  among the sources. The members are those the source file names. A container has the type
  of the worker-state container that \<^verbatim>\<open>workGroupComplete\<close> merges into it, which the
  source does declare; \<open>m_branchCounts\<close>, \<open>m_branchPatterns\<close>, the scalar counters and the
  copy counter have no such counterpart, and hold the specification's "count", an unbounded
  natural number.
\<close>

record plugin =
  m_numberOfHostToDeviceCopiesBeforeKernelNamed :: nat
  m_last_kernel_name :: string
  m_hostToDeviceCopy :: "string list"
  m_deviceToHostCopy :: "string list"
  m_kernelInvocation :: "KernelInvocation option"
  m_storeOps :: "(64 word, 32 word) unordered_map"
  m_loadOps :: "(64 word, 32 word) unordered_map"
  m_computeOps :: "(32 word, 64 word) unordered_map"
  m_branchPatterns :: "(instruction, (16 word, nat) unordered_map) unordered_map"
  m_branchCounts :: "(instruction, nat) unordered_map"
  m_instructionsToBarrier :: "32 word list"
  m_instructionWidth :: "(16 word, 64 word) unordered_map"
  m_instructionsPerWorkitem :: "32 word list"
  m_instructionsBetweenLoadOrStore :: "32 word list"
  m_loadInstructionLabels :: "(string, 64 word) unordered_map"
  m_storeInstructionLabels :: "(string, 64 word) unordered_map"
  m_threads_invoked :: nat
  m_barriers_hit :: nat
  m_global_memory_access :: nat
  m_local_memory_access :: nat
  m_constant_memory_access :: nat
  m_group_num :: Size3
  m_local_num :: Size3
  m_psl_per_group :: "double list list"

section \<open>Transfer tracker\<close>

text \<open>
  The constructor assigns the copy counter and the kernel's name; the containers are
  default-constructed (empty) and the other members keep whatever the storage \<open>raw\<close>
  held.
\<close>

definition WorkloadCharacterisation :: "plugin \<Rightarrow> plugin" where
  "WorkloadCharacterisation raw =
     raw\<lparr>m_numberOfHostToDeviceCopiesBeforeKernelNamed := 0,
         m_last_kernel_name := [],
         m_hostToDeviceCopy := [],
         m_deviceToHostCopy := [],
         m_storeOps := [], m_loadOps := [], m_computeOps := [],
         m_branchPatterns := [], m_branchCounts := [],
         m_instructionsToBarrier := [], m_instructionWidth := [],
         m_instructionsPerWorkitem := [], m_instructionsBetweenLoadOrStore := [],
         m_loadInstructionLabels := [], m_storeInstructionLabels := [],
         m_psl_per_group := []\<rparr>"



text \<open>
  The loop of \<^verbatim>\<open>kernelBegin\<close> that writes the kernel's name over the last copies:
  \<^verbatim>\<open>m_hostToDeviceCopy[end_of_list - i] = m_last_kernel_name\<close> for the values of \<open>i\<close>
  in turn. \<^verbatim>\<open>operator[]\<close> outside the vector is undefined.
\<close>

fun rename_copies :: "string \<Rightarrow> int \<Rightarrow> nat list \<Rightarrow> string list \<Rightarrow> undefined_behaviour + string list" where
  "rename_copies name end_of_list [] copies = Inr copies"
| "rename_copies name end_of_list (i # rest) copies =
     (let j = end_of_list - int i
      in if 0 \<le> j \<and> j < int (length copies)
         then rename_copies name end_of_list rest (copies[nat j := name])
         else Inl Index_Out_Of_Range)"

definition kernelBegin :: "KernelInvocation \<Rightarrow> plugin \<Rightarrow> undefined_behaviour + plugin" where
  "kernelBegin kernelInvocation p =
     (let name = getName kernelInvocation;
          end_of_list = int (length (m_hostToDeviceCopy p)) - 1
      in case rename_copies name end_of_list
                [0 ..< m_numberOfHostToDeviceCopiesBeforeKernelNamed p] (m_hostToDeviceCopy p) of
           Inl ub \<Rightarrow> Inl ub
         | Inr copies \<Rightarrow>
             Inr (p\<lparr>m_kernelInvocation := Some kernelInvocation,
                    m_last_kernel_name := name,
                    m_hostToDeviceCopy := copies,
                    m_numberOfHostToDeviceCopiesBeforeKernelNamed := 0,
                    m_storeOps := [], m_loadOps := [], m_computeOps := [],
                    m_branchPatterns := [], m_branchCounts := [],
                    m_instructionsToBarrier := [], m_instructionWidth := [],
                    m_instructionsPerWorkitem := [], m_instructionsBetweenLoadOrStore := [],
                    m_loadInstructionLabels := [], m_storeInstructionLabels := [],
                    m_threads_invoked := 0, m_barriers_hit := 0,
                    m_global_memory_access := 0, m_local_memory_access := 0,
                    m_constant_memory_access := 0,
                    m_group_num := getNumGroups kernelInvocation,
                    m_local_num := getLocalSize kernelInvocation,
                    m_psl_per_group := []\<rparr>))"

section \<open>Teardown: the memory-transfer report\<close>

text \<open>\<^verbatim>\<open>std::to_string\<close> of a non-negative \<^verbatim>\<open>int\<close>.\<close>

function to_string :: "nat \<Rightarrow> string" where
  "to_string n =
     (if n < 10 then [''0123456789'' ! n]
      else to_string (n div 10) @ [''0123456789'' ! (n mod 10)])"
  by pat_completeness auto
termination
  by (relation "measure id") auto

definition transfer_logfile_name :: "nat \<Rightarrow> string" where
  "transfer_logfile_name logfile_count =
     ''aiwc_memory_transfers_'' @ to_string logfile_count @ ''.csv''"

text \<open>
  The loop of the destructor that chooses the file: \<open>readable name\<close> is the outcome of
  \<^verbatim>\<open>std::ifstream(name)\<close>, true when a file of that name can be opened for reading.
  The loop leaves with the first count whose file opens. \<^verbatim>\<open>logfile_count\<close> is an
  \<^verbatim>\<open>int\<close>: incrementing the largest one is undefined.
\<close>

function transfer_logfile_count :: "(string \<Rightarrow> bool) \<Rightarrow> nat \<Rightarrow> undefined_behaviour + nat" where
  "transfer_logfile_count readable logfile_count =
     (if readable (transfer_logfile_name logfile_count) then Inr logfile_count
      else if 2147483647 \<le> logfile_count then Inl Signed_Overflow
      else transfer_logfile_count readable (logfile_count + 1))"
  by pat_completeness auto
termination
  by (relation "measure (\<lambda>(readable, logfile_count). 2147483647 - logfile_count)") auto

text \<open>
  The loop of \<^verbatim>\<open>logMetrics\<close> that chooses the file of an invocation's report, for
  comparison: it leaves with the first count whose file does not open.
\<close>

definition metrics_logfile_name :: "string \<Rightarrow> string \<Rightarrow> nat \<Rightarrow> string" where
  "metrics_logfile_name prefix kernel_name logfile_count =
     prefix @ ''aiwc_'' @ kernel_name @ ''_'' @ to_string logfile_count @ ''.csv''"

function metrics_logfile_count :: "(string \<Rightarrow> bool) \<Rightarrow> string \<Rightarrow> string \<Rightarrow> nat \<Rightarrow> undefined_behaviour + nat" where
  "metrics_logfile_count readable prefix kernel_name logfile_count =
     (if \<not> readable (metrics_logfile_name prefix kernel_name logfile_count) then Inr logfile_count
      else if 2147483647 \<le> logfile_count then Inl Signed_Overflow
      else metrics_logfile_count readable prefix kernel_name (logfile_count + 1))"
  by pat_completeness auto
termination
  by (relation "measure (\<lambda>(readable, prefix, kernel_name, logfile_count). 2147483647 - logfile_count)") auto

text \<open>
  The rows of one direction: \<^verbatim>\<open>std::unique\<close> keeps the first name of every run of
  equal adjacent names, and each kept name is written with \<^verbatim>\<open>std::count\<close> of it over
  the whole log.
\<close>

definition transfer_rows :: "string list \<Rightarrow> (string \<times> nat) list" where
  "transfer_rows copies = map (\<lambda>item. (item, count_list copies item)) (remdups_adj copies)"

definition transfer_line :: "string \<Rightarrow> string \<times> nat \<Rightarrow> string" where
  "transfer_line direction row =
     ''transfer: '' @ direction @ '','' @ fst row @ '','' @ to_string (snd row) @ [CHR 0x0A]"

text \<open>
  The destructor: the file it writes and the lines it writes there; \<open>None\<close> when the file
  does not open for writing, where it reports on the error stream and returns.
\<close>

definition destructor :: "(string \<Rightarrow> bool) \<Rightarrow> (string \<Rightarrow> bool) \<Rightarrow> plugin \<Rightarrow> undefined_behaviour + (string \<times> string list) option" where
  "destructor readable writable p =
     (case transfer_logfile_count readable 0 of
        Inl ub \<Rightarrow> Inl ub
      | Inr logfile_count \<Rightarrow>
          (let logfile_name = transfer_logfile_name logfile_count
           in if \<not> writable logfile_name then Inr None
              else Inr (Some (logfile_name,
                     [''metric,kernel,count'' @ [CHR 0x0A]]
                     @ map (transfer_line ''host to device'') (transfer_rows (m_hostToDeviceCopy p))
                     @ map (transfer_line ''device to host'') (transfer_rows (m_deviceToHostCopy p))))))"

text \<open>
  The maximal runs of equal adjacent names with their lengths, as the specification words
  the report ("each produce their own (direction, name, run-length) row").
\<close>

fun runs :: "'a list \<Rightarrow> ('a \<times> nat) list" where
  "runs [] = []"
| "runs (a # as) =
     (case runs as of
        [] \<Rightarrow> [(a, 1)]
      | (b, n) # rest \<Rightarrow> if a = b then (b, Suc n) # rest else (a, 1) # (b, n) # rest)"

section \<open>Per-worker state\<close>

text \<open>
  Modelled from the spec: the address spaces are the four the specification lists; their
  declaration is not among the sources.
\<close>

datatype AddressSpace = AddrSpacePrivate | AddrSpaceGlobal | AddrSpaceConstant | AddrSpaceLocal

record ledgerElement =
  address :: "64 word"
  timestep :: "32 word"

text \<open>
  The thread-local \<^verbatim>\<open>m_state\<close>. Its containers are reached through pointers that are
  null until the first \<^verbatim>\<open>workGroupBegin\<close> of the thread allocates them, with the types
  given there; \<open>created\<close> says that they are allocated. The ledger is a member by value.

  Modelled from the spec: the scalar members are declared in the header, which is not among
  the sources, and are natural numbers here.
\<close>

record WorkerState =
  created :: bool
  storeOps :: "(64 word, 32 word) unordered_map"
  loadOps :: "(64 word, 32 word) unordered_map"
  computeOps :: "(32 word, 64 word) unordered_map"
  branchOps :: "(instruction, bool list) unordered_map"
  instructionsBetweenBarriers :: "32 word list"
  instructionWidth :: "(16 word, 64 word) unordered_map"
  instructionsPerWorkitem :: "32 word list"
  instructionsBetweenLoadOrStore :: "32 word list"
  loadInstructionLabels :: "(string, 64 word) unordered_map"
  storeInstructionLabels :: "(string, 64 word) unordered_map"
  threads_invoked :: nat
  instruction_count :: nat
  workitem_instruction_count :: nat
  ops_between_load_or_store :: nat
  barriers_hit :: nat
  constant_memory_access_count :: nat
  local_memory_access_count :: nat
  global_memory_access_count :: nat
  previous_instruction_is_branch :: bool
  target1 :: "basic_block option"
  target2 :: "basic_block option"
  branch_loc :: "instruction option"
  ledger :: "ledgerElement list list"
  psl_per_barrier :: "(double list \<times> 64 word) list"

text \<open>\<^verbatim>\<open>m_state = {NULL}\<close>: the first pointer null, every other member zero or empty.\<close>

definition m_state_initial :: WorkerState where
  "m_state_initial =
     \<lparr>created = False, storeOps = [], loadOps = [], computeOps = [], branchOps = [],
      instructionsBetweenBarriers = [], instructionWidth = [], instructionsPerWorkitem = [],
      instructionsBetweenLoadOrStore = [], loadInstructionLabels = [],
      storeInstructionLabels = [], threads_invoked = 0, instruction_count = 0,
      workitem_instruction_count = 0, ops_between_load_or_store = 0, barriers_hit = 0,
      constant_memory_access_count = 0, local_memory_access_count = 0,
      global_memory_access_count = 0, previous_instruction_is_branch = False,
      target1 = None, target2 = None, branch_loc = None, ledger = [], psl_per_barrier = []\<rparr>"

text \<open>
  \<^verbatim>\<open>workGroupBegin\<close>: the worker state is created when \<^verbatim>\<open>m_state.storeOps\<close> is null,
  and only then is the ledger given its rows, one per work-item of the local size in force.
  After that the containers, some counters and every row of the ledger are cleared.
\<close>

definition workGroupBegin :: "plugin \<Rightarrow> WorkerState \<Rightarrow> WorkerState" where
  "workGroupBegin p w =
     (let w1 = (if \<not> created w
                then w\<lparr>created := True,
                        ledger := replicate (size_x (m_local_num p) * size_y (m_local_num p)
                                               * size_z (m_local_num p)) [],
                        psl_per_barrier := []\<rparr>
                else w)
      in w1\<lparr>storeOps := [], loadOps := [], computeOps := [], branchOps := [],
             instructionsBetweenBarriers := [], instructionWidth := [],
             instructionsPerWorkitem := [], instructionsBetweenLoadOrStore := [],
             loadInstructionLabels := [], storeInstructionLabels := [],
             threads_invoked := 0, instruction_count := 0, barriers_hit := 0,
             constant_memory_access_count := 0, local_memory_access_count := 0,
             global_memory_access_count := 0,
             previous_instruction_is_branch := False,
             target1 := None, target2 := None, branch_loc := None,
             ledger := map (\<lambda>row. []) (ledger w1)\<rparr>)"

text \<open>
  \<^verbatim>\<open>threadMemoryLedger\<close>: the row is chosen from the work-item's local id and the local
  size in force; \<^verbatim>\<open>operator[]\<close> past the last row is undefined.
\<close>

definition threadMemoryLedger :: "plugin \<Rightarrow> 64 word \<Rightarrow> 32 word \<Rightarrow> Size3 \<Rightarrow> WorkerState \<Rightarrow> undefined_behaviour + WorkerState" where
  "threadMemoryLedger p addr ts localID w =
     (let le = \<lparr>address = addr, timestep = ts\<rparr>;
          i = size_x localID * size_y (m_local_num p) * size_z (m_local_num p)
              + size_y localID * size_z (m_local_num p) + size_z localID
      in if i < length (ledger w)
         then Inr (w\<lparr>ledger := (ledger w)[i := ledger w ! i @ [le]]\<rparr>)
         else Inl Index_Out_Of_Range)"

definition memoryLoad :: "plugin \<Rightarrow> AddressSpace \<Rightarrow> Size3 \<Rightarrow> 64 word \<Rightarrow> WorkerState \<Rightarrow> undefined_behaviour + WorkerState" where
  "memoryLoad p space localID addr w =
     (if space \<noteq> AddrSpacePrivate
      then threadMemoryLedger p addr 0 localID (w\<lparr>loadOps := add_at addr 1 (loadOps w)\<rparr>)
      else Inr w)"

definition memoryStore :: "plugin \<Rightarrow> AddressSpace \<Rightarrow> Size3 \<Rightarrow> 64 word \<Rightarrow> WorkerState \<Rightarrow> undefined_behaviour + WorkerState" where
  "memoryStore p space localID addr w =
     (if space \<noteq> AddrSpacePrivate
      then threadMemoryLedger p addr 0 localID (w\<lparr>storeOps := add_at addr 1 (storeOps w)\<rparr>)
      else Inr w)"

section \<open>Ledger and locality\<close>

text \<open>
  The loop body of \<^verbatim>\<open>entropy\<close> and of \<^verbatim>\<open>logMetrics\<close> for one pair of a histogram:
  for each \<open>nskip\<close> of the inner loop, \<^verbatim>\<open>local_address_count[nskip][m.first >> nskip] += m.second\<close>.
\<close>

definition count_local_address :: "nat list \<Rightarrow> 64 word \<times> 32 word \<Rightarrow> (64 word, 32 word) unordered_map list \<Rightarrow> (64 word, 32 word) unordered_map list" where
  "count_local_address skips m local_address_count =
     fold (\<lambda>nskip lac. lac[nskip := add_at (drop_bit nskip (fst m)) (snd m) (lac ! nskip)])
       skips local_address_count"

text \<open>
  The inner loop of \<^verbatim>\<open>logMetrics\<close> over one of the maps, in real numbers:
  \<^verbatim>\<open>prob = (double) it.second / (double) total_count; local_entropy -= prob * log2(prob)\<close>.
\<close>

definition local_entropy :: "64 word \<Rightarrow> (64 word, 32 word) unordered_map \<Rightarrow> real" where
  "local_entropy total_count counts =
     fold (\<lambda>it e. let prob = real (unat (snd it)) / real (unat total_count)
                  in e - prob * log 2 prob)
       counts 0"

text \<open>
  The inner loop of \<^verbatim>\<open>entropy\<close> over one of the maps, in doubles:
  \<^verbatim>\<open>prob = (double)(it.second) * 1.0 / (double)(total_access_count+1)\<close> and
  \<^verbatim>\<open>local_entropy = local_entropy - prob * std::log2(prob)\<close>. A count of 0 makes the
  product \<open>0 * -\<infinity>\<close>, which is not a number.
\<close>

definition entropy_loop :: "64 word \<Rightarrow> (64 word, 32 word) unordered_map \<Rightarrow> double" where
  "entropy_loop total_count counts =
     fold (\<lambda>it e. let prob = double_div (double_mul (Finite (real (unat (snd it)))) (Finite 1))
                                (Finite (real (unat total_count)))
                  in double_sub e (double_mul prob (double_log2 prob)))
       counts (Finite 0)"

text \<open>
  \<^verbatim>\<open>entropy\<close>: the buckets of the ten skips and the \<^verbatim>\<open>uint64_t\<close> total are counted in
  one pass, and each of the eleven sums is narrowed to \<^verbatim>\<open>float\<close> when it is stored.
\<close>

definition entropy :: "(64 word, 32 word) unordered_map \<Rightarrow> double list" where
  "entropy histogram =
     (let (local_address_count, total_access_count) =
            fold (\<lambda>m (lac, total_count).
                    (count_local_address [1 ..< 11] m lac, total_count + ucast (snd m)))
              histogram ((replicate 11 [])[0 := histogram], 0 :: 64 word)
      in if total_access_count = 0 then replicate 11 (Finite 0)
         else map (\<lambda>nskip. to_float (entropy_loop (total_access_count + 1)
                                       (local_address_count ! nskip)))
                [0 ..< 11])"

definition max_row_length :: "'a list list \<Rightarrow> nat" where
  "max_row_length hist = fold (\<lambda>row maxLength. if length row > maxLength then length row else maxLength) hist 0"

definition parallelSpatialLocality :: "ledgerElement list list \<Rightarrow> double list" where
  "parallelSpatialLocality hist =
     (let maxLength = max_row_length hist;
          entropies = map (\<lambda>i. entropy (fold (\<lambda>row histogram.
                                 if i \<ge> length row then histogram
                                 else add_at (address (row ! i)) 1 histogram) hist []))
                        [0 ..< maxLength]
      in map (\<lambda>i. double_div
                    (double_mul (fold (\<lambda>e psl_i. double_add psl_i (e ! i)) entropies (Finite 0))
                       (Finite 1))
                    (Finite (real (length entropies) + 1)))
           [0 ..< 11])"

definition workGroupBarrier :: "WorkerState \<Rightarrow> WorkerState" where
  "workGroupBarrier w =
     (let psl = parallelSpatialLocality (ledger w);
          maxLength = max_row_length (ledger w)
      in w\<lparr>ledger := map (\<lambda>row. []) (ledger w),
            psl_per_barrier := psl_per_barrier w @ [(psl, of_nat maxLength)]\<rparr>)"

section \<open>Work-group merger\<close>

text \<open>\<^verbatim>\<open>for (auto const &item : src) dst[item.first] += item.second;\<close>\<close>

definition merge_counts :: "('k, 'v::{zero,plus}) unordered_map \<Rightarrow> ('k, 'v) unordered_map \<Rightarrow> ('k, 'v) unordered_map" where
  "merge_counts src dst = fold (\<lambda>item. add_at (fst item) (snd item)) src dst"

text \<open>
  The loop over one branch's outcomes, from position \<open>i\<close> with the pattern register
  \<open>current_pattern\<close>: the register is shifted, the outcome is its new low bit, and from
  position \<open>m - 1 = 15\<close> on the pattern is counted for the branch.
\<close>

fun branch_history :: "instruction \<Rightarrow> bool list \<Rightarrow> nat \<Rightarrow> 16 word \<Rightarrow> (instruction, (16 word, nat) unordered_map) unordered_map \<Rightarrow> (instruction, (16 word, nat) unordered_map) unordered_map" where
  "branch_history site [] i current_pattern patterns = patterns"
| "branch_history site (b # bs) i current_pattern patterns =
     (let current_pattern' = push_bit 1 current_pattern OR (if b then 1 else 0)
      in branch_history site bs (i + 1) current_pattern'
           (if i \<ge> 16 - 1 then modify_at site [] (add_at current_pattern' 1) patterns
            else patterns))"

text \<open>The body of the loop over \<^verbatim>\<open>branchOps\<close> for one branch, with \<open>m = 16\<close>.\<close>

definition merge_branch :: "instruction \<times> bool list \<Rightarrow> (instruction, nat) unordered_map \<times> (instruction, (16 word, nat) unordered_map) unordered_map \<Rightarrow> (instruction, nat) unordered_map \<times> (instruction, (16 word, nat) unordered_map) unordered_map" where
  "merge_branch branch cp =
     (let counts = add_at (fst branch) (length (snd branch)) (fst cp)
      in if length (snd branch) < 16 then (counts, snd cp)
         else (counts, branch_history (fst branch) (snd branch) 0 0 (snd cp)))"

text \<open>
  \<^verbatim>\<open>workGroupComplete\<close>, under the lock: the worker's counts are merged into the
  invocation's, the locality of what is left in the ledger is recorded, and the weighted
  average over the worker's records is appended for the group.
\<close>

definition workGroupComplete :: "plugin \<Rightarrow> WorkerState \<Rightarrow> plugin \<times> WorkerState" where
  "workGroupComplete p w =
     (let (counts, patterns) = fold merge_branch (branchOps w) (m_branchCounts p, m_branchPatterns p);
          psl = parallelSpatialLocality (ledger w);
          maxLength = max_row_length (ledger w);
          records = psl_per_barrier w @ [(psl, of_nat maxLength)];
          sumLength = fold (\<lambda>elem n. n + snd elem) records (0 :: 64 word);
          weighted = map (\<lambda>nskip. fold (\<lambda>elem v. double_add v
                                   (double_mul (fst elem ! nskip) (Finite (real (unat (snd elem))))))
                                 records (Finite 0))
                       [0 ..< 11];
          weighted_avg_psl =
            (if sumLength \<noteq> 0
             then map (\<lambda>v. double_div v (to_float (Finite (real (unat (sumLength + 1)))))) weighted
             else weighted)
      in (p\<lparr>m_computeOps := merge_counts (computeOps w) (m_computeOps p),
             m_storeOps := merge_counts (storeOps w) (m_storeOps p),
             m_loadOps := merge_counts (loadOps w) (m_loadOps p),
             m_branchCounts := counts,
             m_branchPatterns := patterns,
             m_threads_invoked := m_threads_invoked p + threads_invoked w,
             m_instructionsToBarrier := m_instructionsToBarrier p @ instructionsBetweenBarriers w,
             m_barriers_hit := m_barriers_hit p + barriers_hit w,
             m_instructionWidth := merge_counts (instructionWidth w) (m_instructionWidth p),
             m_instructionsPerWorkitem := m_instructionsPerWorkitem p @ instructionsPerWorkitem w,
             m_instructionsBetweenLoadOrStore :=
               m_instructionsBetweenLoadOrStore p @ instructionsBetweenLoadOrStore w,
             m_loadInstructionLabels := merge_counts (loadInstructionLabels w) (m_loadInstructionLabels p),
             m_storeInstructionLabels := merge_counts (storeInstructionLabels w) (m_storeInstructionLabels p),
             m_constant_memory_access := m_constant_memory_access p + constant_memory_access_count w,
             m_local_memory_access := m_local_memory_access p + local_memory_access_count w,
             m_global_memory_access := m_global_memory_access p + global_memory_access_count w,
             m_psl_per_group := m_psl_per_group p @ [weighted_avg_psl]\<rparr>,
          w\<lparr>ledger := map (\<lambda>row. []) (ledger w), psl_per_barrier := records\<rparr>))"

section \<open>Kernel end\<close>

text \<open>
  \<^verbatim>\<open>kernelEnd\<close> calls \<^verbatim>\<open>logMetrics\<close>, which reads the members and assigns none, and
  then resets: these are the members it assigns.
\<close>

definition kernelEnd :: "plugin \<Rightarrow> plugin" where
  "kernelEnd p =
     p\<lparr>m_kernelInvocation := None,
       m_loadOps := [], m_storeOps := [], m_computeOps := [],
       m_branchPatterns := [], m_branchCounts := [],
       m_instructionsToBarrier := [], m_instructionsPerWorkitem := [],
       m_threads_invoked := 0,
       m_instructionsBetweenLoadOrStore := [],
       m_loadInstructionLabels := [], m_storeInstructionLabels := []\<rparr>"

section \<open>The host's callbacks\<close>





section \<open>One worker thread\<close>

text \<open>
  The callbacks that one worker thread and the host issue, in the order they are issued, on
  the plugin and the thread's state. The containers of the worker state are reached through
  null pointers until the thread's first \<^verbatim>\<open>workGroupBegin\<close>: a callback that
  dereferences one before that is undefined.
\<close>

datatype worker_callback =
    Kernel_Begin KernelInvocation
  | Kernel_End
  | Work_Group_Begin
  | Memory_Load AddressSpace Size3 "64 word"
  | Memory_Store AddressSpace Size3 "64 word"
  | Work_Group_Barrier
  | Work_Group_Complete

fun worker_step :: "worker_callback \<Rightarrow> plugin \<times> WorkerState \<Rightarrow> undefined_behaviour + plugin \<times> WorkerState" where
  "worker_step (Kernel_Begin ki) (p, w) =
     (case kernelBegin ki p of Inl ub \<Rightarrow> Inl ub | Inr p' \<Rightarrow> Inr (p', w))"
| "worker_step Kernel_End (p, w) = Inr (kernelEnd p, w)"
| "worker_step Work_Group_Begin (p, w) = Inr (p, workGroupBegin p w)"
| "worker_step (Memory_Load space localID addr) (p, w) =
     (if space \<noteq> AddrSpacePrivate \<and> \<not> created w then Inl Null_Pointer_Dereference
      else case memoryLoad p space localID addr w of Inl ub \<Rightarrow> Inl ub | Inr w' \<Rightarrow> Inr (p, w'))"
| "worker_step (Memory_Store space localID addr) (p, w) =
     (if space \<noteq> AddrSpacePrivate \<and> \<not> created w then Inl Null_Pointer_Dereference
      else case memoryStore p space localID addr w of Inl ub \<Rightarrow> Inl ub | Inr w' \<Rightarrow> Inr (p, w'))"
| "worker_step Work_Group_Barrier (p, w) =
     (if \<not> created w then Inl Null_Pointer_Dereference else Inr (p, workGroupBarrier w))"
| "worker_step Work_Group_Complete (p, w) =
     (if \<not> created w then Inl Null_Pointer_Dereference else Inr (workGroupComplete p w))"

fun worker_run :: "worker_callback list \<Rightarrow> plugin \<times> WorkerState \<Rightarrow> undefined_behaviour + plugin \<times> WorkerState" where
  "worker_run [] s = Inr s"
| "worker_run (c # cs) s = (case worker_step c s of Inl ub \<Rightarrow> Inl ub | Inr s' \<Rightarrow> worker_run cs s')"


section \<open>Metric reducer\<close>

text \<open>
  The reductions of \<^verbatim>\<open>logMetrics\<close> over the barrier, work-item and width sequences.
  \<^verbatim>\<open>*std::min_element(first, last)\<close> dereferences \<open>last\<close> when the range is empty; so
  does \<^verbatim>\<open>std::max_element\<close>. Nothing in \<^verbatim>\<open>logMetrics\<close> tests a sequence for
  emptiness before it reduces it.
\<close>

definition min_element :: "'a::linorder list \<Rightarrow> undefined_behaviour + 'a" where
  "min_element xs = (case xs of [] \<Rightarrow> Inl Dereference_Of_End_Iterator | x # rest \<Rightarrow> Inr (fold min rest x))"

definition max_element :: "'a::linorder list \<Rightarrow> undefined_behaviour + 'a" where
  "max_element xs = (case xs of [] \<Rightarrow> Inl Dereference_Of_End_Iterator | x # rest \<Rightarrow> Inr (fold max rest x))"

text \<open>
  The median of the sorted copy; the two middle elements are added and halved in
  \<^verbatim>\<open>uint32_t\<close> arithmetic. With \<open>size = 0\<close> the index \<open>size / 2 - 1\<close>, a
  \<^verbatim>\<open>size_t\<close>, wraps around and lies outside the vector.
\<close>

definition median :: "32 word list \<Rightarrow> undefined_behaviour + 32 word" where
  "median xs =
     (let sorted_xs = sort xs; n = length sorted_xs
      in if n mod 2 = 0
         then (if n = 0 then Inl Index_Out_Of_Range
               else Inr ((sorted_xs ! (n div 2 - 1) + sorted_xs ! (n div 2)) div 2))
         else Inr (sorted_xs ! (n div 2)))"

definition and_then :: "undefined_behaviour + 'a \<Rightarrow> ('a \<Rightarrow> undefined_behaviour + 'b) \<Rightarrow> undefined_behaviour + 'b" where
  "and_then r f = (case r of Inl ub \<Rightarrow> Inl ub | Inr v \<Rightarrow> f v)"

record parallelism =
  itb_min :: "32 word"
  itb_max :: "32 word"
  itb_median :: "32 word"
  ipt_min :: "32 word"
  ipt_max :: "32 word"
  ipt_median :: "32 word"
  simd_min :: "16 word"
  simd_max :: "16 word"

definition logMetrics_parallelism :: "plugin \<Rightarrow> undefined_behaviour + parallelism" where
  "logMetrics_parallelism p =
     and_then (min_element (m_instructionsToBarrier p)) (\<lambda>itb_min.
     and_then (max_element (m_instructionsToBarrier p)) (\<lambda>itb_max.
     and_then (median (m_instructionsToBarrier p)) (\<lambda>itb_median.
     and_then (min_element (m_instructionsPerWorkitem p)) (\<lambda>ipt_min.
     and_then (max_element (m_instructionsPerWorkitem p)) (\<lambda>ipt_max.
     and_then (median (m_instructionsPerWorkitem p)) (\<lambda>ipt_median.
     and_then (min_element (map fst (m_instructionWidth p))) (\<lambda>simd_min.
     and_then (max_element (map fst (m_instructionWidth p))) (\<lambda>simd_max.
       Inr \<lparr>itb_min = itb_min, itb_max = itb_max, itb_median = itb_median,
            ipt_min = ipt_min, ipt_max = ipt_max, ipt_median = ipt_median,
            simd_min = simd_min, simd_max = simd_max\<rparr>))))))))"

text \<open>
  The locals of \<^verbatim>\<open>logMetrics\<close> for the rows of the Memory category: the counts per
  bucket for each of the 11 skips, over the stores and then the loads; the counts sorted in
  descending order; their total; and the entropies, with \<open>p = count / total\<close>.
\<close>

record memory_locals =
  local_address_count :: "(64 word, 32 word) unordered_map list"
  load_count :: "64 word"
  store_count :: "64 word"
  sorted_count :: "(64 word \<times> 32 word) list"
  memory_access_count :: "64 word"
  mem_entropy :: real
  loc_entropy :: "real list"

definition logMetrics_memory :: "plugin \<Rightarrow> memory_locals" where
  "logMetrics_memory p =
     (let lac = fold (count_local_address [0 ..< 11]) (m_loadOps p)
                  (fold (count_local_address [0 ..< 11]) (m_storeOps p) (replicate 11 []));
          stores = fold (\<lambda>m c. c + ucast (snd m)) (m_storeOps p) 0;
          loads = fold (\<lambda>m c. c + ucast (snd m)) (m_loadOps p) 0;
          sorted_entries = rev (sort_key snd (lac ! 0));
          accesses = fold (\<lambda>e c. c + ucast (snd e)) sorted_entries 0
      in \<lparr>local_address_count = lac, load_count = loads, store_count = stores,
           sorted_count = sorted_entries, memory_access_count = accesses,
           mem_entropy = local_entropy accesses sorted_entries,
           loc_entropy = map (\<lambda>nskip. local_entropy accesses (lac ! nskip)) [1 ..< 11]\<rparr>)"

text \<open>
  The quotient of two doubles that hold counts: \<open>None\<close> when the divisor is zero, where
  the double is an infinity or not a number.
\<close>

definition divide_double :: "real \<Rightarrow> real \<Rightarrow> real option" where
  "divide_double a b = (if b = 0 then None else Some (a / b))"

text \<open>
  The rows of the report from \<open>num_memory_accesses\<close> to \<open>LMAE\<close> as label and value, but
  for \<open>memory_footprint_90pc\<close>; the values as numbers, before they are printed.
\<close>

datatype cell = Count nat | Quotient "real option" | Number real | Listed "(nat \<times> real) list"

definition memory_rows :: "plugin \<Rightarrow> (string \<times> cell) list" where
  "memory_rows p =
     (let l = logMetrics_memory p
      in [(''num_memory_accesses'', Count (unat (memory_access_count l))),
          (''total_memory_footprint'', Count (length (local_address_count l ! 0))),
          (''unique_reads'', Count (length (m_storeOps p))),
          (''unique_writes'', Count (length (m_loadOps p))),
          (''unique_read_write_ratio'',
             Quotient (divide_double (real (length (m_loadOps p))) (real (length (m_storeOps p))))),
          (''total_reads'', Count (unat (load_count l))),
          (''total_writes'', Count (unat (store_count l))),
          (''rereads'',
             Quotient (divide_double (real (unat (load_count l))) (real (length (m_loadOps p))))),
          (''rewrites'',
             Quotient (divide_double (real (unat (store_count l))) (real (length (m_storeOps p))))),
          (''global_memory_address_entropy'', Number (mem_entropy l)),
          (''LMAE'', Listed (map (\<lambda>nskip. (nskip, loc_entropy l ! (nskip - 1))) [1 ..< 11]))])"

text \<open>
  The sequential load stream: 1024 loads of 4 bytes each at consecutive places from 0x1000,
  every address counted once, and no store. With loads of one byte instead, the addresses are
  0x1000 to 0x13ff.
\<close>

definition sequential_loads :: "(64 word, 32 word) unordered_map" where
  "sequential_loads = map (\<lambda>i. (4096 + 4 * of_nat i, 1)) [0 ..< 1024]"

definition sequential_byte_loads :: "(64 word, 32 word) unordered_map" where
  "sequential_byte_loads = map (\<lambda>i. (4096 + of_nat i, 1)) [0 ..< 1024]"

text \<open>The sequential load stream in four runs of 256 loads.\<close>

definition chunk :: "nat \<Rightarrow> (64 word, 32 word) unordered_map" where
  "chunk j = map (\<lambda>i. (4096 + 4 * of_nat i, 1)) [256 * j ..< 256 * j + 256]"

section \<open>The entropy of a sparse histogram, as specified\<close>

text \<open>
  The specification's words for \<^verbatim>\<open>entropy\<close>: the total of the counts; the count of
  a bucket \<open>address >> skip\<close>, the sum of the counts of the addresses in it; and
  \<open>H_skip = -\<Sum> p * log2 p\<close> over the buckets, with \<open>p = count / (total + 1)\<close>. These
  are sums of natural numbers and reals, not of machine integers. \<open>look\<close> reads a count
  from a map, 0 for a key it does not hold.
\<close>

definition histogram_total :: "(64 word, 32 word) unordered_map \<Rightarrow> nat" where
  "histogram_total h = sum_list (map (\<lambda>m. unat (snd m)) h)"





section \<open>Reading the merged branch maps\<close>



definition merged :: "plugin \<Rightarrow> WorkerState list \<Rightarrow> plugin" where
  "merged p ws = fold (\<lambda>w p. fst (workGroupComplete p w)) ws p"




section \<open>Concrete inputs\<close>

text \<open>Storage holding zeros, for the constructor to run on, and a kernel launch.\<close>

definition zero_storage :: plugin where
  "zero_storage =
     \<lparr>m_numberOfHostToDeviceCopiesBeforeKernelNamed = 0, m_last_kernel_name = [],
      m_hostToDeviceCopy = [], m_deviceToHostCopy = [], m_kernelInvocation = None,
      m_storeOps = [], m_loadOps = [], m_computeOps = [], m_branchPatterns = [],
      m_branchCounts = [], m_instructionsToBarrier = [], m_instructionWidth = [],
      m_instructionsPerWorkitem = [], m_instructionsBetweenLoadOrStore = [],
      m_loadInstructionLabels = [], m_storeInstructionLabels = [], m_threads_invoked = 0,
      m_barriers_hit = 0, m_global_memory_access = 0, m_local_memory_access = 0,
      m_constant_memory_access = 0, m_group_num = Size3 0 0 0, m_local_num = Size3 0 0 0,
      m_psl_per_group = []\<rparr>"

definition launch :: "string \<Rightarrow> Size3 \<Rightarrow> Size3 \<Rightarrow> KernelInvocation" where
  "launch name groups local_size =
     \<lparr>getName = name, getNumGroups = groups, getLocalSize = local_size,
      workGroupSizeSpecified = True\<rparr>"

text \<open>
  The callbacks of the sequential load stream: one kernel of one work-group of one work-item,
  which loads from global memory at the 1024 addresses in turn.
\<close>

definition sequential_load_callbacks :: "worker_callback list" where
  "sequential_load_callbacks =
     [Kernel_Begin (launch ''stream'' (Size3 1 1 1) (Size3 1 1 1)), Work_Group_Begin]
     @ map (\<lambda>i. Memory_Load AddrSpaceGlobal (Size3 0 0 0) (4096 + 4 * of_nat i)) [0 ..< 1024]
     @ [Work_Group_Complete]"

section \<open>Properties of the transfer tracker\<close>

declare to_string.simps [simp del]
declare transfer_logfile_count.simps [simp del]
declare metrics_logfile_count.simps [simp del]










section \<open>Properties of the teardown report\<close>

lemma runs_Cons_head: "\<exists>n rest. runs (y # ys) = (y, n) # rest \<and> 0 < n"
  by (cases "runs ys") (auto split: if_splits)

lemma map_fst_runs: "map fst (runs xs) = remdups_adj xs"
proof (induction xs rule: remdups_adj.induct)
  case (3 x y xs)
  obtain n rest where r: "runs (y # xs) = (y, n) # rest"
    using runs_Cons_head [of y xs] by auto
  have "runs (x # y # xs) = (if x = y then (y, Suc n) # rest else (x, 1) # (y, n) # rest)"
    using r by (simp del: runs.simps add: runs.simps(2) [of x "y # xs"])
  with 3 r show ?case by (auto simp del: runs.simps)
qed simp_all

lemma count_list_runs:
  "count_list xs k = sum_list (map snd (filter (\<lambda>r. fst r = k) (runs xs)))"
proof (induction xs)
  case Nil
  show ?case by simp
next
  case (Cons a as)
  show ?case
  proof (cases "runs as")
    case Nil
    then have "as = []" by (cases as) (auto split: list.splits prod.splits if_splits)
    with Nil show ?thesis by simp
  next
    case (Cons bn rest)
    obtain b n where "bn = (b, n)" by (cases bn)
    with Cons Cons.IH show ?thesis by auto
  qed
qed

text \<open>
  C7, as the code has it. Every maximal run of equal adjacent names in a direction's log
  gives one row, in the order of the runs; the count of the row is the number of entries
  with that name in the whole log, that is the sum of the lengths of all the runs of that
  name, not the length of the row's own run.
\<close>

theorem transfer_rows_count_whole_log:
  "transfer_rows copies =
     map (\<lambda>run. (fst run, sum_list (map snd (filter (\<lambda>r. fst r = fst run) (runs copies)))))
       (runs copies)"
proof -
  have "transfer_rows copies =
          map (\<lambda>item. (item, count_list copies item)) (map fst (runs copies))"
    by (simp add: transfer_rows_def map_fst_runs)
  also have "\<dots> = map (\<lambda>run. (fst run, count_list copies (fst run))) (runs copies)"
    by (simp add: comp_def)
  finally show ?thesis
    by (simp add: count_list_runs [of copies])
qed

text \<open>
  C7, as the claim words it, fails: a kernel named in two runs of one copy each, with another
  kernel's copy between them, gets two rows of count 2, where the runs have length 1.
\<close>

theorem transfer_rows_not_run_lengths:
  "transfer_rows [''scan'', ''sort'', ''scan''] \<noteq> runs [''scan'', ''sort'', ''scan'']
   \<and> transfer_rows [''scan'', ''sort'', ''scan''] = [(''scan'', 2), (''sort'', 1), (''scan'', 2)]
   \<and> runs [''scan'', ''sort'', ''scan''] = [(''scan'', 1), (''sort'', 1), (''scan'', 1)]"
  by (simp add: transfer_rows_def)

text \<open>
  What the loop of the destructor returns: the first count, from the one it starts at, whose
  file can be opened for reading; with no such file it runs the counter into overflow. The
  loop of \<^verbatim>\<open>logMetrics\<close> returns the first count whose file cannot be opened.
\<close>

lemma transfer_logfile_count_Inr:
  "transfer_logfile_count readable n = Inr k \<Longrightarrow>
   readable (transfer_logfile_name k) \<and> n \<le> k
   \<and> (\<forall>j. n \<le> j \<and> j < k \<longrightarrow> \<not> readable (transfer_logfile_name j))"
proof (induction readable n rule: transfer_logfile_count.induct)
  case (1 readable n)
  show ?case
  proof (cases "readable (transfer_logfile_name n)")
    case True
    with "1.prems" show ?thesis by (auto simp: transfer_logfile_count.simps [of readable n])
  next
    case False
    with "1.prems" have small: "\<not> 2147483647 \<le> n"
      and rec: "transfer_logfile_count readable (n + 1) = Inr k"
      by (auto simp: transfer_logfile_count.simps [of readable n] split: if_splits)
    from "1.IH" [OF False small rec] False show ?thesis
      by (auto simp: Suc_le_eq dest: le_neq_implies_less)
  qed
qed

lemma transfer_logfile_count_no_file:
  "(\<And>j. \<not> readable (transfer_logfile_name j)) \<Longrightarrow>
   transfer_logfile_count readable n = Inl Signed_Overflow"
proof (induction readable n rule: transfer_logfile_count.induct)
  case (1 readable n)
  then show ?case
    by (simp add: transfer_logfile_count.simps [of readable n])
qed

lemma metrics_logfile_count_Inr:
  "metrics_logfile_count readable prefix kn n = Inr k \<Longrightarrow>
   \<not> readable (metrics_logfile_name prefix kn k) \<and> n \<le> k
   \<and> (\<forall>j. n \<le> j \<and> j < k \<longrightarrow> readable (metrics_logfile_name prefix kn j))"
proof (induction readable prefix kn n rule: metrics_logfile_count.induct)
  case (1 readable prefix kn n)
  show ?case
  proof (cases "readable (metrics_logfile_name prefix kn n)")
    case False
    with "1.prems" show ?thesis
      by (auto simp: metrics_logfile_count.simps [of readable prefix kn n])
  next
    case True
    with "1.prems" have small: "\<not> 2147483647 \<le> n"
      and rec: "metrics_logfile_count readable prefix kn (n + 1) = Inr k"
      by (auto simp: metrics_logfile_count.simps [of readable prefix kn n] split: if_splits)
    from "1.IH" [OF _ small rec] True show ?thesis
      by (auto simp: Suc_le_eq dest: le_neq_implies_less)
  qed
qed

text \<open>
  C6 at a directory that holds aiwc_memory_transfers_0.csv and no other report: the smallest
  count with no file of its name is 1, and the destructor chooses 0, the file that exists.
\<close>

theorem transfer_logfile_count_existing_file:
  "transfer_logfile_count (\<lambda>name. name = ''aiwc_memory_transfers_0.csv'') 0 = Inr 0
   \<and> transfer_logfile_name 0 = ''aiwc_memory_transfers_0.csv''
   \<and> transfer_logfile_name 1 \<noteq> ''aiwc_memory_transfers_0.csv''"
  by (simp add: transfer_logfile_count.simps transfer_logfile_name_def to_string.simps)

text \<open>
  In a directory with no report at all the loop of the destructor finds no count to leave
  with, where the loop of \<^verbatim>\<open>logMetrics\<close> leaves at once with 0.
\<close>

lemma transfer_logfile_count_empty_directory:
  "transfer_logfile_count (\<lambda>name. False) 0 = Inl Signed_Overflow"
  by (rule transfer_logfile_count_no_file) simp

lemma metrics_logfile_count_empty_directory:
  "metrics_logfile_count (\<lambda>name. False) prefix kn 0 = Inr 0"
  by (simp add: metrics_logfile_count.simps)

section \<open>Properties of the ledger\<close>











text \<open>
  Where \<^verbatim>\<open>threadMemoryLedger\<close> is defined: a local id inside the local size in force
  selects a row of a ledger that has one row per work-item of that size.
\<close>

lemma threadMemoryLedger_defined:
  assumes "size_x l < size_x (m_local_num p)" "size_y l < size_y (m_local_num p)"
    "size_z l < size_z (m_local_num p)"
    "length (ledger w) = size_x (m_local_num p) * size_y (m_local_num p) * size_z (m_local_num p)"
  shows "\<exists>w'. threadMemoryLedger p a t l w = Inr w'"
proof -
  let ?X = "size_x (m_local_num p)" and ?Y = "size_y (m_local_num p)"
    and ?Z = "size_z (m_local_num p)"
  have "size_y l * ?Z + size_z l < ?Y * ?Z"
  proof -
    have "size_y l * ?Z + size_z l < size_y l * ?Z + ?Z" using assms(3) by simp
    also have "\<dots> = Suc (size_y l) * ?Z" by simp
    also have "\<dots> \<le> ?Y * ?Z" using assms(2) by (intro mult_le_mono1) simp
    finally show ?thesis .
  qed
  then have "size_x l * ?Y * ?Z + size_y l * ?Z + size_z l < size_x l * (?Y * ?Z) + ?Y * ?Z"
    by (simp add: mult.assoc)
  also have "\<dots> = Suc (size_x l) * (?Y * ?Z)" by simp
  also have "\<dots> \<le> ?X * (?Y * ?Z)" using assms(1) by (intro mult_le_mono1) simp
  finally show ?thesis
    using assms(4) by (simp add: threadMemoryLedger_def Let_def mult.assoc)
qed





section \<open>Properties of kernel end\<close>

lemma kernelEnd_clears:
  "m_loadOps (kernelEnd p) = [] \<and> m_storeOps (kernelEnd p) = []
   \<and> m_computeOps (kernelEnd p) = [] \<and> m_branchPatterns (kernelEnd p) = []
   \<and> m_branchCounts (kernelEnd p) = [] \<and> m_instructionsToBarrier (kernelEnd p) = []
   \<and> m_instructionsPerWorkitem (kernelEnd p) = [] \<and> m_threads_invoked (kernelEnd p) = 0
   \<and> m_instructionsBetweenLoadOrStore (kernelEnd p) = []
   \<and> m_loadInstructionLabels (kernelEnd p) = [] \<and> m_storeInstructionLabels (kernelEnd p) = []"
  by (simp add: kernelEnd_def)

text \<open>
  C9 fails on the code: \<^verbatim>\<open>kernelEnd\<close> returns with the instruction-width counts, the
  barrier counter, the three memory-access counters and the per-group locality list as they
  were before it, whatever they held.
\<close>

theorem kernelEnd_leaves_members:
  "m_instructionWidth (kernelEnd p) = m_instructionWidth p
   \<and> m_barriers_hit (kernelEnd p) = m_barriers_hit p
   \<and> m_global_memory_access (kernelEnd p) = m_global_memory_access p
   \<and> m_local_memory_access (kernelEnd p) = m_local_memory_access p
   \<and> m_constant_memory_access (kernelEnd p) = m_constant_memory_access p
   \<and> m_psl_per_group (kernelEnd p) = m_psl_per_group p"
  by (simp add: kernelEnd_def)

text \<open>\<^verbatim>\<open>kernelBegin\<close> does reset each of them.\<close>

lemma kernelBegin_clears:
  "kernelBegin ki p = Inr p' \<Longrightarrow>
   m_instructionWidth p' = [] \<and> m_barriers_hit p' = 0 \<and> m_global_memory_access p' = 0
   \<and> m_local_memory_access p' = 0 \<and> m_constant_memory_access p' = 0 \<and> m_psl_per_group p' = []"
  by (auto simp: kernelBegin_def Let_def split: sum.splits)

section \<open>Properties of the containers\<close>



lemma keys_modify_at: "fst ` set (modify_at k d f m) = insert k (fst ` set m)"
  by (induction m) (force split: if_splits)+



section \<open>Properties of the branch merge\<close>


















section \<open>Properties of the metric reducer\<close>

lemma min_element_eq:
  "min_element xs = (if xs = [] then Inl Dereference_Of_End_Iterator else Inr (Min (set xs)))"
  by (cases xs) (simp_all add: min_element_def Min.set_eq_fold del: set_simps)

lemma max_element_eq:
  "max_element xs = (if xs = [] then Inl Dereference_Of_End_Iterator else Inr (Max (set xs)))"
  by (cases xs) (simp_all add: max_element_def Max.set_eq_fold del: set_simps)

lemma median_eq:
  "xs \<noteq> [] \<Longrightarrow>
   median xs = Inr (if length xs mod 2 = 0
                    then (sort xs ! (length xs div 2 - 1) + sort xs ! (length xs div 2)) div 2
                    else sort xs ! (length xs div 2))"
  by (simp add: median_def Let_def)

text \<open>
  C8, as the code has it. \<^verbatim>\<open>logMetrics\<close> has no guard and no error of its own for an
  empty sequence: when the barrier sequence, the work-item sequence or the width map is
  empty, a \<^verbatim>\<open>min_element\<close> or \<^verbatim>\<open>max_element\<close> result that is the end iterator is
  dereferenced; when none is empty, the reductions give the least and the greatest element
  and the median of the sorted copy.
\<close>

theorem logMetrics_parallelism_unguarded:
  "logMetrics_parallelism p =
     (if m_instructionsToBarrier p = [] \<or> m_instructionsPerWorkitem p = []
         \<or> m_instructionWidth p = []
      then Inl Dereference_Of_End_Iterator
      else Inr \<lparr>itb_min = Min (set (m_instructionsToBarrier p)),
                itb_max = Max (set (m_instructionsToBarrier p)),
                itb_median =
                  (if length (m_instructionsToBarrier p) mod 2 = 0
                   then (sort (m_instructionsToBarrier p) ! (length (m_instructionsToBarrier p) div 2 - 1)
                         + sort (m_instructionsToBarrier p) ! (length (m_instructionsToBarrier p) div 2)) div 2
                   else sort (m_instructionsToBarrier p) ! (length (m_instructionsToBarrier p) div 2)),
                ipt_min = Min (set (m_instructionsPerWorkitem p)),
                ipt_max = Max (set (m_instructionsPerWorkitem p)),
                ipt_median =
                  (if length (m_instructionsPerWorkitem p) mod 2 = 0
                   then (sort (m_instructionsPerWorkitem p) ! (length (m_instructionsPerWorkitem p) div 2 - 1)
                         + sort (m_instructionsPerWorkitem p) ! (length (m_instructionsPerWorkitem p) div 2)) div 2
                   else sort (m_instructionsPerWorkitem p) ! (length (m_instructionsPerWorkitem p) div 2)),
                simd_min = Min (fst ` set (m_instructionWidth p)),
                simd_max = Max (fst ` set (m_instructionWidth p))\<rparr>)"
proof (cases "m_instructionsToBarrier p = []")
  case True
  then show ?thesis
    by (simp add: logMetrics_parallelism_def and_then_def min_element_eq)
next
  case itb: False
  note v1 = median_eq [OF itb]
  show ?thesis
  proof (cases "m_instructionsPerWorkitem p = []")
    case True
    with itb v1 show ?thesis
      by (simp add: logMetrics_parallelism_def and_then_def min_element_eq max_element_eq)
  next
    case ipt: False
    note v2 = median_eq [OF ipt]
    from itb ipt v1 v2 show ?thesis
      by (simp add: logMetrics_parallelism_def and_then_def min_element_eq max_element_eq)
  qed
qed

text \<open>
  C8, as the claim words it, fails: for an invocation in which no work-item ran, the members
  are as \<^verbatim>\<open>kernelBegin\<close> left them, and the first reduction dereferences the end of the
  empty barrier sequence.
\<close>

theorem logMetrics_parallelism_no_work_items:
  "\<exists>p. kernelBegin (launch ''empty'' (Size3 1 1 1) (Size3 1 1 1))
          (WorkloadCharacterisation zero_storage) = Inr p
     \<and> logMetrics_parallelism (merged p []) = Inl Dereference_Of_End_Iterator"
  by (simp add: kernelBegin_def Let_def WorkloadCharacterisation_def zero_storage_def merged_def
      logMetrics_parallelism_def and_then_def min_element_def)

section \<open>Properties of the memory rows\<close>



lemma m_storeOps_workGroupComplete:
  "m_storeOps (fst (workGroupComplete p w)) = merge_counts (storeOps w) (m_storeOps p)"
  by (simp add: workGroupComplete_def Let_def split: prod.splits)

lemma m_loadOps_workGroupComplete:
  "m_loadOps (fst (workGroupComplete p w)) = merge_counts (loadOps w) (m_loadOps p)"
  by (simp add: workGroupComplete_def Let_def split: prod.splits)









section \<open>Properties of the address buckets\<close>

lemma length_count_local_address:
  "length (count_local_address skips m lac) = length lac"
  unfolding count_local_address_def by (induction skips arbitrary: lac) simp_all

lemma nth_count_local_address:
  "k < length lac \<Longrightarrow> distinct skips \<Longrightarrow>
   count_local_address skips m lac ! k =
     (if k \<in> set skips then add_at (drop_bit k (fst m)) (snd m) (lac ! k) else lac ! k)"
  unfolding count_local_address_def
proof (induction skips arbitrary: lac)
  case Nil
  show ?case by simp
next
  case (Cons s skips)
  let ?lac = "lac[s := add_at (drop_bit s (fst m)) (snd m) (lac ! s)]"
  have "k < length ?lac" using Cons.prems by simp
  moreover have "k \<in> set skips \<Longrightarrow> k \<noteq> s" using Cons.prems by auto
  ultimately show ?case
    using Cons.IH [of ?lac] Cons.prems by (auto simp: nth_list_update)
qed

lemma nth_fold_count_local_address:
  "k < length lac \<Longrightarrow> distinct skips \<Longrightarrow> k \<in> set skips \<Longrightarrow>
   fold (count_local_address skips) h lac ! k =
     fold (\<lambda>m. add_at (drop_bit k (fst m)) (snd m)) h (lac ! k)"
proof (induction h arbitrary: lac)
  case Nil
  show ?case by simp
next
  case (Cons m h)
  have "k < length (count_local_address skips m lac)"
    using Cons.prems by (simp add: length_count_local_address)
  from Cons.IH [OF this Cons.prems(2,3)] Cons.prems show ?case
    by (simp add: nth_count_local_address)
qed

lemma length_fold_count_local_address:
  "length (fold (count_local_address skips) h lac) = length lac"
  by (induction h arbitrary: lac) (simp_all add: length_count_local_address)

lemma modify_at_twice:
  "modify_at k d g (modify_at k d f m) = modify_at k d (\<lambda>v. g (f v)) m"
  by (induction m) auto

lemma add_at_twice:
  "add_at k c (add_at k c' m) = add_at k (c' + c) (m :: ('k \<times> 'v::comm_monoid_add) list)"
  by (simp add: add_at_def modify_at_twice add.assoc)

lemma fold_add_at_one_bucket:
  "\<forall>m \<in> set xs. g (fst m) = b \<Longrightarrow> xs \<noteq> [] \<Longrightarrow>
   fold (\<lambda>m. add_at (g (fst m)) (snd m)) xs m0
     = add_at b (sum_list (map snd xs)) (m0 :: ('k \<times> 'v::comm_monoid_add) list)"
proof (induction xs arbitrary: m0)
  case Nil
  then show ?case by simp
next
  case (Cons x xs)
  show ?case
  proof (cases "xs = []")
    case True
    with Cons.prems show ?thesis by simp
  next
    case False
    with Cons.IH [of "add_at b (snd x) m0"] Cons.prems show ?thesis
      by (simp add: add_at_twice)
  qed
qed

lemma unat_sequential_address:
  "i < 1024 \<Longrightarrow> unat (4096 + 4 * of_nat i :: 64 word) = 4096 + 4 * i"
  by (simp add: unat_word_ariths unat_of_nat)

lemma drop_bit_sequential_address:
  assumes "i < 1024"
  shows "drop_bit 10 (4096 + 4 * of_nat i :: 64 word) = of_nat (4 + i div 256)"
proof -
  have "unat (drop_bit 10 (4096 + 4 * of_nat i :: 64 word)) = (4096 + 4 * i) div 1024"
    by (simp add: unat_div unat_sequential_address [OF assms] drop_bit_eq_div)
  also have "\<dots> = 4 + i div 256" by simp
  finally have "of_nat (unat (drop_bit 10 (4096 + 4 * of_nat i :: 64 word))) = (of_nat (4 + i div 256) :: 64 word)"
    by simp
  then show ?thesis by simp
qed

lemma log_2_4: "log 2 4 = 2"
proof -
  have "log 2 (2 ^ 2) = real 2" by (rule log_pow_cancel) simp_all
  then show ?thesis by simp
qed

lemma log_quarter: "log 2 (1 / 4) = - 2"
  by (simp add: log_divide log_2_4)

lemma local_entropy_four_buckets:
  "local_entropy 1024 [(4, 256), (5, 256), (6, 256), (7, 256)] = 2"
  by (simp add: local_entropy_def log_quarter)

lemma local_entropy_one_bucket:
  "local_entropy 1024 [(4, 1024)] = 0"
  by (simp add: local_entropy_def)

lemma sequential_loads_chunks:
  "sequential_loads = chunk 0 @ chunk 1 @ chunk 2 @ chunk 3"
proof -
  have "[0 ..< 1024] = [0 ..< 256] @ [256 ..< 512] @ [512 ..< 768] @ [768 ..< 1024]"
    using upt_add_eq_append [of 0 256 256] upt_add_eq_append [of 256 512 256]
      upt_add_eq_append [of 512 768 256] upt_add_eq_append [of 0 512 512]
    by simp
  then show ?thesis
    by (simp add: sequential_loads_def chunk_def)
qed

lemma chunk_bucket:
  assumes "j < 4" "m \<in> set (chunk j)"
  shows "drop_bit 10 (fst m) = of_nat (4 + j)"
proof -
  from assms(2) obtain i where i: "256 * j \<le> i" "i < 256 * j + 256"
    and m: "m = (4096 + 4 * of_nat i, 1)"
    by (auto simp: chunk_def)
  from i assms(1) have "i < 1024" "i div 256 = j" by auto
  with m show ?thesis by (simp add: drop_bit_sequential_address)
qed

lemma chunk_sum: "sum_list (map snd (chunk j)) = 256"
  by (simp add: chunk_def comp_def sum_list_triv)

lemma chunk_not_Nil: "chunk j \<noteq> []"
  by (simp add: chunk_def)

lemma fold_chunk:
  "j < 4 \<Longrightarrow> fold (\<lambda>m. add_at (drop_bit 10 (fst m)) (snd m)) (chunk j) m0
     = add_at (of_nat (4 + j)) 256 m0"
  using fold_add_at_one_bucket [of "chunk j" "drop_bit 10" "of_nat (4 + j)" m0]
  by (simp add: chunk_bucket chunk_sum chunk_not_Nil)

lemma sequential_loads_skip_10:
  "fold (\<lambda>m. add_at (drop_bit 10 (fst m)) (snd m)) sequential_loads []
     = [(4, 256), (5, 256), (6, 256), (7, 256)]"
  using fold_chunk [of 0] fold_chunk [of 1] fold_chunk [of 2] fold_chunk [of 3]
  by (simp add: sequential_loads_chunks add_at_def)

lemma add_at_fresh:
  "k \<notin> fst ` set m \<Longrightarrow> add_at k v m = m @ [(k, v :: 'v::comm_monoid_add)]"
  unfolding add_at_def by (induction m) auto

lemma fold_add_at_fresh:
  "distinct (map fst (m0 @ h)) \<Longrightarrow>
   fold (\<lambda>m. add_at (fst m) (snd m)) h m0 = m0 @ (h :: ('k \<times> 'v::comm_monoid_add) list)"
proof (induction h arbitrary: m0)
  case Nil
  show ?case by simp
next
  case (Cons x h)
  have "fst x \<notin> fst ` set m0" using Cons.prems by auto
  then have "add_at (fst x) (snd x) m0 = m0 @ [x]" by (simp add: add_at_fresh)
  moreover have "distinct (map fst ((m0 @ [x]) @ h))" using Cons.prems by simp
  ultimately show ?case using Cons.IH [of "m0 @ [x]"] by simp
qed

lemma distinct_sequential_loads: "distinct (map fst sequential_loads)"
proof -
  have "inj_on (\<lambda>i. 4096 + 4 * of_nat i :: 64 word) {0 ..< 1024}"
  proof (rule inj_onI)
    fix i j :: nat
    assume "i \<in> {0 ..< 1024}" "j \<in> {0 ..< 1024}"
      and eq: "(4096 + 4 * of_nat i :: 64 word) = 4096 + 4 * of_nat j"
    then have "i < 1024" "j < 1024" by simp_all
    from arg_cong [OF eq, of unat] this show "i = j"
      by (simp add: unat_sequential_address)
  qed
  then show ?thesis
    by (simp add: sequential_loads_def comp_def distinct_map)
qed

lemma sequential_loads_skip_0:
  "fold (\<lambda>m. add_at (fst m) (snd m)) sequential_loads [] = sequential_loads"
  using fold_add_at_fresh [of "[]" sequential_loads] distinct_sequential_loads by simp

lemma fold_ucast_ones:
  "\<forall>e \<in> set xs. snd e = (1 :: 32 word) \<Longrightarrow>
   fold (\<lambda>e c. c + ucast (snd e)) xs c0 = c0 + (of_nat (length xs) :: 64 word)"
  by (induction xs arbitrary: c0) simp_all

lemma sequential_loads_locals:
  fixes p :: plugin
  defines "l \<equiv> logMetrics_memory (p\<lparr>m_storeOps := [], m_loadOps := sequential_loads\<rparr>)"
  shows "memory_access_count l = 1024"
    and "local_address_count l ! 10 = [(4, 256), (5, 256), (6, 256), (7, 256)]"
proof -
  let ?lac = "fold (count_local_address [0 ..< 11]) sequential_loads (replicate 11 [])"
  have lac0: "?lac ! 0 = sequential_loads"
    using nth_fold_count_local_address [of 0 "replicate 11 []" "[0 ..< 11]" sequential_loads]
    by (simp add: sequential_loads_skip_0)
  have ones: "\<forall>e \<in> set (rev (sort_key snd sequential_loads)). snd e = 1"
    by (auto simp: sequential_loads_def)
  have "length sequential_loads = 1024" by (simp add: sequential_loads_def)
  with fold_ucast_ones [OF ones, of 0] lac0 show "memory_access_count l = 1024"
    by (simp add: l_def logMetrics_memory_def Let_def)
  show "local_address_count l ! 10 = [(4, 256), (5, 256), (6, 256), (7, 256)]"
    using nth_fold_count_local_address [of 10 "replicate 11 []" "[0 ..< 11]" sequential_loads]
    by (simp add: l_def logMetrics_memory_def Let_def sequential_loads_skip_10)
qed

lemma sequential_loads_lmae_10:
  "loc_entropy (logMetrics_memory (p\<lparr>m_storeOps := [], m_loadOps := sequential_loads\<rparr>)) ! 9 = 2"
proof -
  let ?l = "logMetrics_memory (p\<lparr>m_storeOps := [], m_loadOps := sequential_loads\<rparr>)"
  have "loc_entropy ?l = map (\<lambda>nskip. local_entropy (memory_access_count ?l) (local_address_count ?l ! nskip)) [1 ..< 11]"
    by (simp add: logMetrics_memory_def Let_def)
  then have "loc_entropy ?l ! 9 = local_entropy (memory_access_count ?l) (local_address_count ?l ! 10)"
    by simp
  then show ?thesis
    by (simp add: sequential_loads_locals local_entropy_four_buckets)
qed

lemma map_of_LMAE:
  "map_of (memory_rows p) ''LMAE'' =
     Some (Listed (map (\<lambda>nskip. (nskip, loc_entropy (logMetrics_memory p) ! (nskip - 1))) [1 ..< 11]))"
  by (simp add: memory_rows_def Let_def)

lemma upt_1_11: "[1 ..< 11] = [1, 2, 3, 4, 5, 6, 7, 8, 9, 10 :: nat]"
  by code_simp

lemma map_of_skip_10:
  "map_of (map (\<lambda>nskip. (nskip, f nskip)) [1 ..< 11]) 10 = Some (f 10)"
  unfolding upt_1_11 by simp

lemma sequential_loads_row:
  assumes "m_storeOps p = []" "m_loadOps p = sequential_loads"
  shows "\<exists>es. map_of (memory_rows p) ''LMAE'' = Some (Listed es) \<and> map_of es 10 = Some 2"
proof -
  let ?es = "map (\<lambda>nskip. (nskip, loc_entropy (logMetrics_memory p) ! (nskip - 1))) [1 ..< 11]"
  have p: "p\<lparr>m_storeOps := [], m_loadOps := sequential_loads\<rparr> = p"
    using assms by simp
  have r: "map_of (memory_rows p) ''LMAE'' = Some (Listed ?es)"
    by (rule map_of_LMAE)
  have "map_of ?es 10 = Some (loc_entropy (logMetrics_memory p) ! (10 - 1))"
    by (rule map_of_skip_10)
  then have "map_of ?es 10 = Some 2"
    using sequential_loads_lmae_10 [of p] p by simp
  with r show ?thesis by blast
qed

lemma worker_run_append:
  "worker_run (cs @ ds) s =
     (case worker_run cs s of Inl ub \<Rightarrow> Inl ub | Inr s' \<Rightarrow> worker_run ds s')"
  by (induction cs arbitrary: s) (simp_all split: sum.splits)

lemma worker_run_loads:
  assumes "created w" "m_local_num p = Size3 1 1 1" "length (ledger w) = 1"
    and "distinct (map fst (loadOps w) @ addrs)"
  shows "\<exists>w'. worker_run (map (Memory_Load AddrSpaceGlobal (Size3 0 0 0)) addrs) (p, w) = Inr (p, w')
     \<and> created w' \<and> loadOps w' = loadOps w @ map (\<lambda>a. (a, 1)) addrs \<and> storeOps w' = storeOps w
     \<and> branchOps w' = branchOps w"
  using assms
proof (induction addrs arbitrary: w)
  case Nil
  then show ?case by simp
next
  case (Cons a addrs)
  let ?w1 = "w\<lparr>loadOps := add_at a 1 (loadOps w),
                ledger := (ledger w)[0 := ledger w ! 0 @ [\<lparr>address = a, timestep = 0\<rparr>]]\<rparr>"
  have fresh: "a \<notin> fst ` set (loadOps w)" using Cons.prems(4) by auto
  then have l1: "loadOps ?w1 = loadOps w @ [(a, 1)]" by (simp add: add_at_fresh)
  have step: "worker_step (Memory_Load AddrSpaceGlobal (Size3 0 0 0) a) (p, w) = Inr (p, ?w1)"
    using Cons.prems(1,2,3) by (simp add: memoryLoad_def threadMemoryLedger_def Let_def)
  have "created ?w1" "length (ledger ?w1) = 1" using Cons.prems(1,3) by simp_all
  moreover have "distinct (map fst (loadOps ?w1) @ addrs)"
    using Cons.prems(4) by (simp add: l1)
  ultimately obtain w' where
    "worker_run (map (Memory_Load AddrSpaceGlobal (Size3 0 0 0)) addrs) (p, ?w1) = Inr (p, w')"
    "created w'" "loadOps w' = loadOps ?w1 @ map (\<lambda>a. (a, 1)) addrs" "storeOps w' = storeOps ?w1"
    "branchOps w' = branchOps ?w1"
    using Cons.IH [of ?w1] Cons.prems(2) by blast
  with step l1 show ?case by simp
qed

lemma merge_counts_fresh:
  "distinct (map fst src) \<Longrightarrow> merge_counts src [] = (src :: ('k \<times> 'v::comm_monoid_add) list)"
  using fold_add_at_fresh [of "[]" src] by (simp add: merge_counts_def)

lemma sequential_load_callbacks_members:
  "\<exists>p w. worker_run sequential_load_callbacks (WorkloadCharacterisation zero_storage, m_state_initial)
           = Inr (p, w)
     \<and> m_storeOps p = [] \<and> m_loadOps p = sequential_loads"
proof -
  let ?ki = "launch ''stream'' (Size3 1 1 1) (Size3 1 1 1)"
  obtain p where p: "kernelBegin ?ki (WorkloadCharacterisation zero_storage) = Inr p"
    and pm: "m_local_num p = Size3 1 1 1" "m_storeOps p = []" "m_loadOps p = []"
    by (simp add: kernelBegin_def Let_def WorkloadCharacterisation_def zero_storage_def launch_def)
  let ?w0 = "workGroupBegin p m_state_initial"
  have w0: "created ?w0" "length (ledger ?w0) = 1" "loadOps ?w0 = []" "storeOps ?w0 = []"
    using pm by (simp_all add: workGroupBegin_def m_state_initial_def Let_def)
  have start: "worker_run [Kernel_Begin ?ki, Work_Group_Begin]
      (WorkloadCharacterisation zero_storage, m_state_initial) = Inr (p, ?w0)"
    using p by simp
  let ?addrs = "map (\<lambda>i. 4096 + 4 * of_nat i :: 64 word) [0 ..< 1024]"
  have d: "distinct ?addrs"
    using distinct_sequential_loads by (simp add: sequential_loads_def comp_def)
  then have "distinct (map fst (loadOps ?w0) @ ?addrs)" using w0 by simp
  from worker_run_loads [OF w0(1) pm(1) w0(2) this] obtain w1 where
    loads: "worker_run (map (Memory_Load AddrSpaceGlobal (Size3 0 0 0)) ?addrs) (p, ?w0) = Inr (p, w1)"
    and w1: "created w1" "loadOps w1 = map (\<lambda>a. (a, 1)) ?addrs" "storeOps w1 = []"
    using w0 by auto
  have l: "loadOps w1 = sequential_loads"
    using w1(2) by (simp add: sequential_loads_def comp_def)
  obtain p2 w2 where c: "workGroupComplete p w1 = (p2, w2)" by (cases "workGroupComplete p w1")
  then have "m_loadOps p2 = merge_counts (loadOps w1) (m_loadOps p)"
    "m_storeOps p2 = merge_counts (storeOps w1) (m_storeOps p)"
    using m_loadOps_workGroupComplete [of p w1] m_storeOps_workGroupComplete [of p w1] by simp_all
  then have m: "m_loadOps p2 = sequential_loads" "m_storeOps p2 = []"
    using pm w1(3) l merge_counts_fresh [OF distinct_sequential_loads]
    by (simp_all add: merge_counts_def)
  have "worker_run sequential_load_callbacks (WorkloadCharacterisation zero_storage, m_state_initial)
      = Inr (p2, w2)"
    unfolding sequential_load_callbacks_def
    using start loads w1(1) c
    by (simp only: worker_run_append map_map comp_def sum.case) simp
  with m show ?thesis by blast
qed

text \<open>
  C3, as the code has it. The 1024 addresses of the sequential load stream, 4 bytes apart
  from 0x1000, end at 0x1ffc: shifted right by 10 they fall into the four buckets 4, 5, 6
  and 7, 256 addresses each, so the entry of the LMAE row for skip 10 is
  \<open>-4 * (1/4) * log2 (1/4) = 2\<close>.
\<close>

theorem sequential_loads_lmae_skip_10:
  "\<exists>p w es. worker_run sequential_load_callbacks
               (WorkloadCharacterisation zero_storage, m_state_initial) = Inr (p, w)
     \<and> map_of (memory_rows p) ''LMAE'' = Some (Listed es)
     \<and> map_of es 10 = Some 2"
  using sequential_load_callbacks_members sequential_loads_row by blast

text \<open>C3, as the claim words it, fails: the entry for skip 10 is not 0.\<close>

theorem sequential_loads_lmae_skip_10_not_zero:
  "\<not> (\<exists>p w es. worker_run sequential_load_callbacks
                  (WorkloadCharacterisation zero_storage, m_state_initial) = Inr (p, w)
         \<and> map_of (memory_rows p) ''LMAE'' = Some (Listed es)
         \<and> map_of es 10 = Some 0)"
proof
  assume "\<exists>p w es. worker_run sequential_load_callbacks
                  (WorkloadCharacterisation zero_storage, m_state_initial) = Inr (p, w)
         \<and> map_of (memory_rows p) ''LMAE'' = Some (Listed es)
         \<and> map_of es 10 = Some 0"
  then obtain p w es where run: "worker_run sequential_load_callbacks
      (WorkloadCharacterisation zero_storage, m_state_initial) = Inr (p, w)"
    and row: "map_of (memory_rows p) ''LMAE'' = Some (Listed es)" "map_of es 10 = Some 0"
    by blast
  from sequential_load_callbacks_members run
  have "m_storeOps p = []" "m_loadOps p = sequential_loads" by auto
  from sequential_loads_row [OF this] row show False by auto
qed

text \<open>
  Read as 1024 consecutive byte addresses from 0x1000, the stream ends at 0x13ff, inside the
  one bucket 4, and the entry for skip 10 is 0.
\<close>

lemma unat_byte_address:
  "i < 1024 \<Longrightarrow> unat (4096 + of_nat i :: 64 word) = 4096 + i"
  by (simp add: unat_word_ariths unat_of_nat)

lemma drop_bit_byte_address:
  assumes "i < 1024"
  shows "drop_bit 10 (4096 + of_nat i :: 64 word) = 4"
proof -
  have "unat (drop_bit 10 (4096 + of_nat i :: 64 word)) = (4096 + i) div 1024"
    by (simp add: unat_div unat_byte_address [OF assms] drop_bit_eq_div)
  also have "\<dots> = 4" using assms by simp
  finally have "of_nat (unat (drop_bit 10 (4096 + of_nat i :: 64 word))) = (of_nat 4 :: 64 word)"
    by simp
  then show ?thesis by simp
qed

lemma distinct_sequential_byte_loads: "distinct (map fst sequential_byte_loads)"
proof -
  have "inj_on (\<lambda>i. 4096 + of_nat i :: 64 word) {0 ..< 1024}"
  proof (rule inj_onI)
    fix i j :: nat
    assume "i \<in> {0 ..< 1024}" "j \<in> {0 ..< 1024}"
      and eq: "(4096 + of_nat i :: 64 word) = 4096 + of_nat j"
    then have "i < 1024" "j < 1024" by simp_all
    from arg_cong [OF eq, of unat] this show "i = j"
      by (simp add: unat_byte_address)
  qed
  then show ?thesis
    by (simp add: sequential_byte_loads_def comp_def distinct_map)
qed

lemma sequential_byte_loads_skip_10:
  "fold (\<lambda>m. add_at (drop_bit 10 (fst m)) (snd m)) sequential_byte_loads [] = [(4, 1024)]"
proof -
  have "\<forall>m \<in> set sequential_byte_loads. drop_bit 10 (fst m) = 4"
    by (auto simp: sequential_byte_loads_def drop_bit_byte_address)
  moreover have "sequential_byte_loads \<noteq> []" by (simp add: sequential_byte_loads_def)
  moreover have "sum_list (map snd sequential_byte_loads) = 1024"
    by (simp add: sequential_byte_loads_def comp_def sum_list_triv)
  ultimately show ?thesis
    using fold_add_at_one_bucket [of sequential_byte_loads "drop_bit 10" 4 "[]"]
    by (simp add: add_at_def)
qed

lemma sequential_byte_loads_locals:
  fixes p :: plugin
  defines "l \<equiv> logMetrics_memory (p\<lparr>m_storeOps := [], m_loadOps := sequential_byte_loads\<rparr>)"
  shows "memory_access_count l = 1024"
    and "local_address_count l ! 10 = [(4, 1024)]"
proof -
  let ?lac = "fold (count_local_address [0 ..< 11]) sequential_byte_loads (replicate 11 [])"
  have "fold (\<lambda>m. add_at (fst m) (snd m)) sequential_byte_loads [] = sequential_byte_loads"
    using fold_add_at_fresh [of "[]" sequential_byte_loads] distinct_sequential_byte_loads by simp
  then have lac0: "?lac ! 0 = sequential_byte_loads"
    using nth_fold_count_local_address [of 0 "replicate 11 []" "[0 ..< 11]" sequential_byte_loads]
    by simp
  have ones: "\<forall>e \<in> set (rev (sort_key snd sequential_byte_loads)). snd e = 1"
    by (auto simp: sequential_byte_loads_def)
  have "length sequential_byte_loads = 1024" by (simp add: sequential_byte_loads_def)
  with fold_ucast_ones [OF ones, of 0] lac0 show "memory_access_count l = 1024"
    by (simp add: l_def logMetrics_memory_def Let_def)
  show "local_address_count l ! 10 = [(4, 1024)]"
    using nth_fold_count_local_address [of 10 "replicate 11 []" "[0 ..< 11]" sequential_byte_loads]
    by (simp add: l_def logMetrics_memory_def Let_def sequential_byte_loads_skip_10)
qed

lemma sequential_byte_loads_lmae_skip_10:
  "\<exists>es. map_of (memory_rows (zero_storage\<lparr>m_storeOps := [], m_loadOps := sequential_byte_loads\<rparr>))
           ''LMAE'' = Some (Listed es)
     \<and> map_of es 10 = Some 0"
proof -
  let ?p = "zero_storage\<lparr>m_storeOps := [], m_loadOps := sequential_byte_loads\<rparr>"
  let ?l = "logMetrics_memory ?p"
  let ?es = "map (\<lambda>nskip. (nskip, loc_entropy ?l ! (nskip - 1))) [1 ..< 11]"
  have "loc_entropy ?l = map (\<lambda>nskip. local_entropy (memory_access_count ?l)
                                 (local_address_count ?l ! nskip)) [1 ..< 11]"
    by (simp add: logMetrics_memory_def Let_def)
  then have "loc_entropy ?l ! 9 = local_entropy (memory_access_count ?l) (local_address_count ?l ! 10)"
    by simp
  then have nine: "loc_entropy ?l ! 9 = 0"
    by (simp add: sequential_byte_loads_locals local_entropy_def)
  have r: "map_of (memory_rows ?p) ''LMAE'' = Some (Listed ?es)"
    by (rule map_of_LMAE)
  have "map_of ?es 10 = Some (loc_entropy ?l ! (10 - 1))"
    by (rule map_of_skip_10)
  then have "map_of ?es 10 = Some 0"
    using nine by simp
  with r show ?thesis by blast
qed

section \<open>Properties of the sparse-histogram entropy\<close>



lemma keys_add_at: "fst ` set (add_at k v m) = insert k (fst ` set m)"
  by (simp add: add_at_def keys_modify_at)





lemma fold_pair:
  "fold (\<lambda>m (a, b). (f m a, g m b)) h (a0, b0) = (fold f h a0, fold g h b0)"
  by (induction h arbitrary: a0 b0) simp_all

lemma nth_fold_count_local_address_other:
  "k < length lac \<Longrightarrow> distinct skips \<Longrightarrow> k \<notin> set skips \<Longrightarrow>
   fold (count_local_address skips) h lac ! k = lac ! k"
proof (induction h arbitrary: lac)
  case Nil
  show ?case by simp
next
  case (Cons m h)
  have "k < length (count_local_address skips m lac)"
    using Cons.prems by (simp add: length_count_local_address)
  from Cons.IH [OF this Cons.prems(2,3)] Cons.prems show ?case
    by (simp add: nth_count_local_address)
qed

lemma fold_ucast_total:
  "fold (\<lambda>m t. t + ucast (snd m)) h (t0 :: 64 word) = t0 + of_nat (histogram_total h)"
  for h :: "(64 word, 32 word) unordered_map"
  unfolding histogram_total_def by (induction h arbitrary: t0) (simp_all add: add.assoc)




lemma entropy_unfold:
  "entropy h =
     (if (of_nat (histogram_total h) :: 64 word) = 0 then replicate 11 (Finite 0)
      else map (\<lambda>nskip. to_float (entropy_loop (of_nat (histogram_total h) + 1)
                  (fold (count_local_address [1 ..< 11]) h ((replicate 11 [])[0 := h]) ! nskip)))
             [0 ..< 11])"
proof -
  have t: "fold (\<lambda>m t. t + ucast (snd m)) h (0 :: 64 word) = of_nat (histogram_total h)"
    using fold_ucast_total [of h 0] by simp
  show ?thesis
    unfolding entropy_def fold_pair Let_def prod.case t ..
qed


lemma entropy_local_address_count:
  assumes "distinct (map fst h)" "skip < 11"
  shows "fold (count_local_address [1 ..< 11]) h ((replicate 11 [])[0 := h]) ! skip
           = fold (\<lambda>m. add_at (drop_bit skip (fst m)) (snd m)) h []"
proof (cases "skip = 0")
  case True
  have "fold (count_local_address [1 ..< 11]) h ((replicate 11 [])[0 := h]) ! 0 = h"
    using nth_fold_count_local_address_other [of 0 "(replicate 11 [])[0 := h]" "[1 ..< 11]" h]
    by simp
  moreover have "fold (\<lambda>m. add_at (fst m) (snd m)) h [] = h"
    using fold_add_at_fresh [of "[]" h] assms(1) by simp
  ultimately show ?thesis using True by simp
next
  case False
  with assms(2) show ?thesis
    using nth_fold_count_local_address [of skip "(replicate 11 [])[0 := h]" "[1 ..< 11]" h]
    by simp
qed










subsection \<open>The narrowing to float\<close>


lemma round_to_even_numeral [simp]: "round_to_even (numeral n) = numeral n"
  by (simp add: round_to_even_def)

lemma round_to_even_zero [simp]: "round_to_even 0 = 0"
  by (simp add: round_to_even_def)
















lemma float_exponent_eq:
  assumes "2 powr of_int e \<le> \<bar>x\<bar>" "\<bar>x\<bar> < 2 powr of_int (e + 1)" "- 126 \<le> e"
  shows "float_exponent x = e"
proof -
  have "0 < \<bar>x\<bar>" using assms(1) by (smt (verit) powr_gt_zero)
  then have "\<lfloor>log 2 \<bar>x\<bar>\<rfloor> = e"
    using floor_log_eq_powr_iff [of "\<bar>x\<bar>" 2 e] assms by simp
  then show ?thesis using assms(3) by (simp add: float_exponent_def)
qed

lemma float_exponent_eq_nat:
  assumes "2 ^ n \<le> \<bar>x\<bar>" "\<bar>x\<bar> < 2 ^ (n + 1)"
  shows "float_exponent x = int n"
proof (rule float_exponent_eq)
  show "2 powr real_of_int (int n) \<le> \<bar>x\<bar>" using assms(1) by (simp add: powr_realpow)
  have "2 powr real_of_int (int n + 1) = (2::real) powr real (n + 1)" by (simp add: add.commute)
  also have "\<dots> = 2 ^ (n + 1)" by (subst powr_realpow) simp_all
  finally show "\<bar>x\<bar> < 2 powr real_of_int (int n + 1)" using assms(2) by simp
qed simp



lemma round_float_2: "round_float 2 = 2"
proof -
  have "float_exponent 2 = int 1" by (intro float_exponent_eq_nat) simp_all
  then have e: "float_exponent 2 = 1" by simp
  then have u: "float_ulp 2 = 1 / 2 ^ 22" by (simp add: float_ulp_def powr_minus_divide)
  show ?thesis unfolding round_float_def u by simp
qed



subsection \<open>The values of \<^verbatim>\<open>entropy\<close>\<close>


lemma entropy_nth_unfold:
  assumes "distinct (map fst h)" and skip: "skip < 11"
    and "(of_nat (histogram_total h) :: 64 word) \<noteq> 0"
  shows "entropy h ! skip =
           to_float (entropy_loop (of_nat (histogram_total h) + 1)
             (fold (\<lambda>m. add_at (drop_bit skip (fst m)) (snd m)) h []))"
proof -
  let ?F = "\<lambda>nskip. to_float (entropy_loop (of_nat (histogram_total h) + 1)
              (fold (count_local_address [1 ..< 11]) h ((replicate 11 [])[0 := h]) ! nskip))"
  from assms(3) have "entropy h = map ?F [0 ..< 11]"
    by (simp only: entropy_unfold if_False)
  then have "entropy h ! skip = ?F ([0 ..< 11] ! skip)"
    using skip by (simp only: nth_map length_upt minus_nat.diff_0)
  also have "[0 ..< 11] ! skip = skip" using skip by (simp only: nth_upt add_0)
  finally show ?thesis
    by (simp only: entropy_local_address_count [OF assms(1) skip])
qed




subsection \<open>Where the claim fails\<close>






text \<open>
  Outside those histograms the sums are not numbers: a count of 0 beside a non-zero total,
  and two counts of one bucket that add up to \<open>2^32\<close>, give \<open>0 * log2 0\<close>.
\<close>

lemma entropy_zero_count: "entropy [(0, 0), (1, 1)] ! 0 = NaN"
  using entropy_nth_unfold [of "[(0, 0), (1, 1)]" 0]
  by (simp add: histogram_total_def add_at_def entropy_loop_def double_mul_def double_sub_def)

lemma entropy_bucket_wraps: "entropy [(0, 2147483648), (1, 2147483648)] ! 1 = NaN"
  using entropy_nth_unfold [of "[(0, 2147483648), (1, 2147483648)]" 1]
  by (simp add: histogram_total_def add_at_def entropy_loop_def double_mul_def double_sub_def
      drop_bit_eq_div)

section \<open>Addresses recorded by the memory callbacks\<close>

text \<open>
  The keys of a worker's \<open>storeOps\<close> and \<open>loadOps\<close> are the addresses it stored to and
  loaded from outside private memory.
\<close>

lemma threadMemoryLedger_ops:
  "threadMemoryLedger p a t l w = Inr w' \<Longrightarrow> storeOps w' = storeOps w \<and> loadOps w' = loadOps w"
  by (auto simp: threadMemoryLedger_def Let_def split: if_splits)

lemma memoryStore_addresses:
  assumes "memoryStore p space localID addr w = Inr w'"
  shows "fst ` set (storeOps w') =
           (if space \<noteq> AddrSpacePrivate then insert addr (fst ` set (storeOps w))
            else fst ` set (storeOps w))
         \<and> loadOps w' = loadOps w"
proof (cases "space = AddrSpacePrivate")
  case True
  with assms show ?thesis by (simp add: memoryStore_def)
next
  case False
  with assms have "threadMemoryLedger p addr 0 localID (w\<lparr>storeOps := add_at addr 1 (storeOps w)\<rparr>) = Inr w'"
    by (simp add: memoryStore_def)
  from threadMemoryLedger_ops [OF this] False show ?thesis
    by (simp add: keys_add_at)
qed

lemma memoryLoad_addresses:
  assumes "memoryLoad p space localID addr w = Inr w'"
  shows "fst ` set (loadOps w') =
           (if space \<noteq> AddrSpacePrivate then insert addr (fst ` set (loadOps w))
            else fst ` set (loadOps w))
         \<and> storeOps w' = storeOps w"
proof (cases "space = AddrSpacePrivate")
  case True
  with assms show ?thesis by (simp add: memoryLoad_def)
next
  case False
  with assms have "threadMemoryLedger p addr 0 localID (w\<lparr>loadOps := add_at addr 1 (loadOps w)\<rparr>) = Inr w'"
    by (simp add: memoryLoad_def)
  from threadMemoryLedger_ops [OF this] False show ?thesis
    by (simp add: keys_add_at)
qed

end
